theory Spec2Isabelle
  imports Main
begin

section \<open>libhtml: the node model and the rendering engine of html.go\<close>

text \<open>
  The library builds a tree of values of the Go interface \<^verbatim>\<open>Node\<close>, whose only method is
  \<^verbatim>\<open>Render(w io.Writer) error\<close>, and serialises it in one depth-first pass.

  Modelling decisions.
  \<^item> The world. Everything a render can touch (the contents of the sink, and the variables
    that caller-supplied closures read and write) is one state of type \<open>'s\<close>, threaded through
    every call.
  \<^item> The sink. An \<^verbatim>\<open>io.Writer\<close> is a function from the state and the bytes of one
    \<^verbatim>\<open>Write\<close> call to the returned error (\<open>None\<close> is Go's \<^verbatim>\<open>nil\<close>) and the new state.
    The byte count that \<^verbatim>\<open>Write\<close> also returns is discarded at every call site of html.go.
  \<^item> Results. \<^verbatim>\<open>Render\<close> returns \<^verbatim>\<open>nil\<close> (\<open>OK\<close>), returns the error of a failed write
    (\<open>Err\<close>), or panics (\<open>Panic\<close>: a method call on a nil interface value, a call of a nil
    function value). The state at that moment is kept in all three cases: output is streamed,
    so what was written before a failure stays written.
  \<^item> Interface values. A \<^verbatim>\<open>Node\<close> is either \<^verbatim>\<open>nil\<close> (\<open>None\<close>) or a value with a
    \<^verbatim>\<open>Render\<close> method (\<open>Some r\<close>, with \<open>r\<close> the method). The interface is open, so \<open>r\<close> ranges
    over every render behaviour, those of html.go and those of the caller. A \<^verbatim>\<open>Render\<close> that
    does not return (a cyclic tree) is outside the model.
  \<^item> Closures. A \<^verbatim>\<open>func() Node\<close> has side effects: it maps the state to the node it returns
    and the new state; a nil function value is \<open>None\<close>. Invoking the closure is applying the
    function, once per application. A closure or a writer that itself panics or does not
    return is outside the model.
  \<^item> Maps. A \<^verbatim>\<open>map[string]string\<close> is a partial function. Go leaves the order of a
    \<^verbatim>\<open>range\<close> over a map unspecified, so the order is a parameter \<open>ord\<close> of the rendering of
    a tag: it lists the entries of the map it is given. A tag is one built by \<^verbatim>\<open>NewTag\<close>,
    whose map is allocated.
  \<^item> Strings are byte strings, as in Go.
\<close>

subsection \<open>Results, sinks and sequencing\<close>

datatype outcome = OK | Err string | Panic

type_synonym 's action = "'s \<Rightarrow> outcome \<times> 's"

type_synonym 's writer = "'s \<Rightarrow> string \<Rightarrow> string option \<times> 's"

type_synonym 's Node = "('s writer \<Rightarrow> 's action) option"

type_synonym 's thunk = "('s \<Rightarrow> 's Node \<times> 's) option"

text \<open>
  One call \<^verbatim>\<open>w.Write(p)\<close> whose error, if any, is what the caller returns. The calls
  \<^verbatim>\<open>io.WriteString(w, s)\<close> and \<^verbatim>\<open>fmt.Fprintf(w, format, args...)\<close> of html.go each format
  their text and hand it to the writer in one such call.
\<close>

definition Write :: "'s writer \<Rightarrow> string \<Rightarrow> 's action" where
  "Write wr p s = (case wr s p of (None, s') \<Rightarrow> (OK, s') | (Some e, s') \<Rightarrow> (Err e, s'))"

text \<open>
  The statement pattern \<^verbatim>\<open>if err := a; err != nil { return err }\<close> followed by \<open>b\<close>: the
  rest runs only when the first part returned \<^verbatim>\<open>nil\<close>; a panic ends the render as well.
\<close>

definition and_then :: "'s action \<Rightarrow> 's action \<Rightarrow> 's action" where
  "and_then a b s = (case a s of (OK, s') \<Rightarrow> b s' | (r, s') \<Rightarrow> (r, s'))"

text \<open>The method call \<^verbatim>\<open>node.Render(w)\<close> on an interface value: on \<^verbatim>\<open>nil\<close> it panics.\<close>

fun Render :: "'s Node \<Rightarrow> 's writer \<Rightarrow> 's action" where
  "Render None wr s = (Panic, s)"
| "Render (Some r) wr s = r wr s"

text \<open>
  The sink of the repository's test, \<^verbatim>\<open>strings.Builder\<close>: the state is the text written so
  far, and a write appends and never fails.
\<close>

definition Builder :: "string writer" where
  "Builder s p = (None, s @ p)"

subsection \<open>Escaping: \<^verbatim>\<open>html.EscapeString\<close> of the Go standard library\<close>

text \<open>
  html.go escapes with \<^verbatim>\<open>html.EscapeString\<close>, which the standard library defines as
  \<^verbatim>\<open>htmlEscaper.Replace(s)\<close> for
  \<^verbatim>\<open>strings.NewReplacer(`&`, "&amp;", `'`, "&#39;", `<`, "&lt;", `>`, "&gt;", `"`, "&#34;")\<close>.
  Every old string is one byte, so the replacer walks the input once and looks each byte up
  in its table, the first pair for a byte winning.
\<close>

definition htmlEscaper :: "(char \<times> string) list" where
  "htmlEscaper =
     [(CHR ''&'', ''&amp;''), (CHR 0x27, ''&#39;''), (CHR ''<'', ''&lt;''),
      (CHR ''>'', ''&gt;''), (CHR 0x22, ''&#34;'')]"

definition Replace :: "(char \<times> string) list \<Rightarrow> string \<Rightarrow> string" where
  "Replace table s = concat (map (\<lambda>c. case map_of table c of None \<Rightarrow> [c] | Some r \<Rightarrow> r) s)"

definition EscapeString :: "string \<Rightarrow> string" where
  "EscapeString s = Replace htmlEscaper s"

text \<open>
  The specification's wording of the escaper, for comparison: five replacements of every
  occurrence of one character, done one after the other, the ampersand first. The entity
  written for the double quote is a parameter.
\<close>

definition replace_all :: "char \<Rightarrow> string \<Rightarrow> string \<Rightarrow> string" where
  "replace_all c r s = concat (map (\<lambda>x. if x = c then r else [x]) s)"

definition escape_in_order :: "string \<Rightarrow> string \<Rightarrow> string" where
  "escape_in_order quot s =
     replace_all (CHR 0x27) ''&#39;''
       (replace_all (CHR 0x22) quot
         (replace_all (CHR ''>'') ''&gt;''
           (replace_all (CHR ''<'') ''&lt;''
             (replace_all (CHR ''&'') ''&amp;'' s))))"

subsection \<open>Leaf nodes\<close>

definition text_Render :: "string \<Rightarrow> 's writer \<Rightarrow> 's action" where
  "text_Render content wr = Write wr (EscapeString content)"

definition Text :: "string \<Rightarrow> 's Node" where
  "Text content = Some (text_Render content)"

definition raw_Render :: "string \<Rightarrow> 's writer \<Rightarrow> 's action" where
  "raw_Render content wr = Write wr content"

definition Raw :: "string \<Rightarrow> 's Node" where
  "Raw content = Some (raw_Render content)"

subsection \<open>Conditionals\<close>

definition if_Render :: "bool \<Rightarrow> 's Node \<Rightarrow> 's writer \<Rightarrow> 's action" where
  "if_Render condition then_node wr s =
     (if condition then Render then_node wr s else (OK, s))"

definition If_node :: "bool \<Rightarrow> 's Node \<Rightarrow> 's Node" where
  "If_node condition then_node = Some (if_Render condition then_node)"

definition ifFunc_Render :: "bool \<Rightarrow> 's thunk \<Rightarrow> 's writer \<Rightarrow> 's action" where
  "ifFunc_Render condition thenFn wr s =
     (case (condition, thenFn) of
        (True, Some f) \<Rightarrow>
          (case f s of
             (Some n, s') \<Rightarrow> Render (Some n) wr s'
           | (None, s') \<Rightarrow> (OK, s'))
      | _ \<Rightarrow> (OK, s))"

definition IfFunc :: "bool \<Rightarrow> 's thunk \<Rightarrow> 's Node" where
  "IfFunc condition thenFn = Some (ifFunc_Render condition thenFn)"

definition ifElse_Render :: "bool \<Rightarrow> 's Node \<Rightarrow> 's Node \<Rightarrow> 's writer \<Rightarrow> 's action" where
  "ifElse_Render condition then_node else_node wr s =
     (if condition then Render then_node wr s else Render else_node wr s)"

definition IfElse :: "bool \<Rightarrow> 's Node \<Rightarrow> 's Node \<Rightarrow> 's Node" where
  "IfElse condition then_node else_node = Some (ifElse_Render condition then_node else_node)"

definition ifElseFunc_Render :: "bool \<Rightarrow> 's thunk \<Rightarrow> 's thunk \<Rightarrow> 's writer \<Rightarrow> 's action" where
  "ifElseFunc_Render condition thenFn elseFn wr s =
     (case (condition, thenFn) of
        (True, Some f) \<Rightarrow>
          (case f s of
             (Some n, s') \<Rightarrow> Render (Some n) wr s'
           | (None, s') \<Rightarrow> (OK, s'))
      | _ \<Rightarrow>
          (case elseFn of
             None \<Rightarrow> (Panic, s)
           | Some g \<Rightarrow> (case g s of (node, s') \<Rightarrow> Render node wr s')))"

definition IfElseFunc :: "bool \<Rightarrow> 's thunk \<Rightarrow> 's thunk \<Rightarrow> 's Node" where
  "IfElseFunc condition thenFn elseFn = Some (ifElseFunc_Render condition thenFn elseFn)"

subsection \<open>Map and Group\<close>

text \<open>
  The loop of \<^verbatim>\<open>map_.Render\<close>. The transform is a Go function: it may be nil, and it may
  have side effects. Calling a nil transform panics; with no items it is never called.
\<close>

fun map_Render ::
  "'t list \<Rightarrow> ('t \<Rightarrow> 's \<Rightarrow> 's Node \<times> 's) option \<Rightarrow> 's writer \<Rightarrow> 's action" where
  "map_Render [] transform wr s = (OK, s)"
| "map_Render (item # items) transform wr s =
     (case transform of
        None \<Rightarrow> (Panic, s)
      | Some f \<Rightarrow>
          (case f item s of
             (node, s1) \<Rightarrow>
               (case Render node wr s1 of
                  (OK, s2) \<Rightarrow> map_Render items transform wr s2
                | (r, s2) \<Rightarrow> (r, s2))))"

definition Map_node :: "'t list \<Rightarrow> ('t \<Rightarrow> 's \<Rightarrow> 's Node \<times> 's) option \<Rightarrow> 's Node" where
  "Map_node items transform = Some (map_Render items transform)"

text \<open>
  The loop over a children slice, written three times in html.go (in \<^verbatim>\<open>document.Render\<close>,
  \<^verbatim>\<open>group.Render\<close> and \<^verbatim>\<open>Tag.Render\<close>): a nil child is skipped by \<^verbatim>\<open>continue\<close>, the first
  child that fails ends the loop.
\<close>

fun range_children :: "'s Node list \<Rightarrow> 's writer \<Rightarrow> 's action" where
  "range_children [] wr s = (OK, s)"
| "range_children (child # rest) wr s =
     (case child of
        None \<Rightarrow> range_children rest wr s
      | Some r \<Rightarrow>
          (case Render (Some r) wr s of
             (OK, s') \<Rightarrow> range_children rest wr s'
           | (e, s') \<Rightarrow> (e, s')))"

definition group_Render :: "'s Node list \<Rightarrow> 's writer \<Rightarrow> 's action" where
  "group_Render children wr = range_children children wr"

definition Group :: "'s Node list \<Rightarrow> 's Node" where
  "Group children = Some (group_Render children)"

subsection \<open>Document\<close>

definition document_Render :: "'s Node list \<Rightarrow> 's writer \<Rightarrow> 's action" where
  "document_Render children wr =
     and_then (Write wr ''<!DOCTYPE html>'') (range_children children wr)"

definition Document :: "'s Node list \<Rightarrow> 's Node" where
  "Document children = Some (document_Render children)"

subsection \<open>Tag\<close>

record 's Tag =
  name :: string
  isVoid :: bool
  children :: "'s Node list"
  attributes :: "string \<rightharpoonup> string"

definition NewTag :: "string \<Rightarrow> bool \<Rightarrow> 's Node list \<Rightarrow> 's Tag" where
  "NewTag n v cs = \<lparr>name = n, isVoid = v, children = cs, attributes = Map.empty\<rparr>"

definition Children :: "'s Node list \<Rightarrow> 's Tag \<Rightarrow> 's Tag" where
  "Children cs e = e\<lparr>children := cs\<rparr>"

text \<open>
  The setters mutate the tag and return the same pointer; the model returns the updated tag.
\<close>

definition Attribute :: "string \<Rightarrow> string \<Rightarrow> 's Tag \<Rightarrow> 's Tag" where
  "Attribute key val t =
     (if val = [] then t else t\<lparr>attributes := (attributes t)(key \<mapsto> val)\<rparr>)"

definition AttributeIf :: "bool \<Rightarrow> string \<Rightarrow> string \<Rightarrow> 's Tag \<Rightarrow> 's Tag" where
  "AttributeIf cond key val t =
     (if cond then t\<lparr>attributes := (attributes t)(key \<mapsto> val)\<rparr> else t)"

text \<open>The text of one attribute, \<^verbatim>\<open>fmt.Sprintf(" %s=\"%s\"", key, value)\<close>.\<close>

definition attribute_fragment :: "string \<times> string \<Rightarrow> string" where
  "attribute_fragment kv = '' '' @ fst kv @ ''='' @ [CHR 0x22] @ snd kv @ [CHR 0x22]"

text \<open>The loop over the attribute map, in the order \<open>kvs\<close> in which \<^verbatim>\<open>range\<close> yields it.\<close>

fun range_attributes :: "(string \<times> string) list \<Rightarrow> 's writer \<Rightarrow> 's action" where
  "range_attributes [] wr s = (OK, s)"
| "range_attributes (kv # kvs) wr s =
     (case Write wr (attribute_fragment kv) s of
        (OK, s') \<Rightarrow> range_attributes kvs wr s'
      | (e, s') \<Rightarrow> (e, s'))"

definition Tag_Render ::
  "((string \<rightharpoonup> string) \<Rightarrow> (string \<times> string) list) \<Rightarrow> 's Tag \<Rightarrow> 's writer \<Rightarrow> 's action" where
  "Tag_Render ord e wr =
     and_then (Write wr (''<'' @ name e))
       (and_then (range_attributes (ord (attributes e)) wr)
          (if isVoid e then Write wr ''/>''
           else
             and_then (Write wr ''>'')
               (and_then (range_children (children e) wr)
                  (Write wr (''</'' @ name e @ ''>'')))))"

definition Tag_Node ::
  "((string \<rightharpoonup> string) \<Rightarrow> (string \<times> string) list) \<Rightarrow> 's Tag \<Rightarrow> 's Node" where
  "Tag_Node ord e = Some (Tag_Render ord e)"

text \<open>
  What \<^verbatim>\<open>range\<close> guarantees of the order \<open>ord\<close> on the map \<open>m\<close>: every entry of the map is
  yielded, once.
\<close>

definition ranges :: "((string \<rightharpoonup> string) \<Rightarrow> (string \<times> string) list) \<Rightarrow> (string \<rightharpoonup> string) \<Rightarrow> bool" where
  "ranges ord m \<longleftrightarrow> distinct (map fst (ord m)) \<and> map_of (ord m) = m"

text \<open>
  One order that \<^verbatim>\<open>range\<close> may take: the entries of the map in the order of a list of keys.
\<close>

definition in_key_order :: "string list \<Rightarrow> (string \<rightharpoonup> string) \<Rightarrow> (string \<times> string) list" where
  "in_key_order ks m = concat (map (\<lambda>k. case m k of None \<Rightarrow> [] | Some v \<Rightarrow> [(k, v)]) ks)"

subsection \<open>Typed setters\<close>

text \<open>
  The generated setters of html.go all have one of two shapes: \<^verbatim>\<open>e.Attribute(key, value)\<close>,
  and the same call under \<^verbatim>\<open>if condition\<close>. These are the ones the repository's test uses.
\<close>

definition ClassIf :: "bool \<Rightarrow> string \<Rightarrow> 's Tag \<Rightarrow> 's Tag" where
  "ClassIf condition val e = (if condition then Attribute ''class'' val e else e)"

definition Lang :: "string \<Rightarrow> 's Tag \<Rightarrow> 's Tag" where
  "Lang val e = Attribute ''lang'' val e"

definition Charset :: "string \<Rightarrow> 's Tag \<Rightarrow> 's Tag" where
  "Charset val e = Attribute ''charset'' val e"

subsection \<open>The repository's test\<close>

text \<open>
  \<^verbatim>\<open>TestRender\<close> builds a document over two users, the first without a profile, and compares
  the rendering with a fixed string. The then closure reads the fields of the profile, so it
  has a value only for a user that has one. The expected string lists \<^verbatim>\<open>class\<close> before
  \<^verbatim>\<open>lang\<close>; the order of the range is taken accordingly.
\<close>

record Profile =
  FirstName :: string
  LastName :: string

record User =
  ID :: int
  Profile :: "Profile option"

definition test_order :: "(string \<rightharpoonup> string) \<Rightarrow> (string \<times> string) list" where
  "test_order = in_key_order [''class'', ''lang'', ''charset'']"

definition El :: "'s Tag \<Rightarrow> 's Node" where
  "El e = Tag_Node test_order e"

definition greeting :: "User \<Rightarrow> 's \<Rightarrow> 's Node \<times> 's" where
  "greeting user s =
     (IfElseFunc (Profile user \<noteq> None)
        (Some (\<lambda>s. (El (NewTag ''p'' False
           [Text (''Hello '' @ FirstName (the (Profile user)) @ '' ''
                  @ LastName (the (Profile user)))]), s)))
        (Some (\<lambda>s. (El (NewTag ''p'' False [Text ''Hello anonymous'']), s))), s)"

definition test_users :: "User list" where
  "test_users =
     [\<lparr>ID = 1, Profile = None\<rparr>,
      \<lparr>ID = 2, Profile = Some \<lparr>FirstName = ''Alexis'', LastName = ''Bouchez''\<rparr>\<rparr>]"

definition test_doc :: "'s Node" where
  "test_doc = Document
     [El (Children
        [El (Children
              [El (Children [Text ''My Go application''] (NewTag ''title'' False [])),
               El (Charset ''utf-8'' (NewTag ''meta'' True [])),
               El (Charset ''width=device-width, initial-scale=1'' (NewTag ''meta'' True []))]
              (NewTag ''head'' False [])),
         El (Children
              [El (Children [Map_node test_users (Some greeting)] (NewTag ''div'' False []))]
              (NewTag ''body'' False []))]
        (Lang ''en'' (ClassIf True ''dark'' (NewTag ''html'' False []))))]"

definition test_expected :: string where
  "test_expected =
     ''<!DOCTYPE html><html class='' @ [CHR 0x22] @ ''dark'' @ [CHR 0x22]
     @ '' lang='' @ [CHR 0x22] @ ''en'' @ [CHR 0x22]
     @ ''><head><title>My Go application</title><meta charset='' @ [CHR 0x22] @ ''utf-8''
     @ [CHR 0x22] @ ''/><meta charset='' @ [CHR 0x22]
     @ ''width=device-width, initial-scale=1'' @ [CHR 0x22]
     @ ''/></head><body><div><p>Hello anonymous</p><p>Hello Alexis Bouchez</p></div></body></html>''"

subsection \<open>A world with a call log\<close>

text \<open>
  The test set-up for laziness and for early exit: the state holds the text in the sink and
  a log of closure invocations. \<open>Sink\<close> is a string builder. \<open>BoundedSink n\<close> has room for
  \<open>n\<close> bytes: a write that does not fit writes nothing and returns an error. A logged closure
  appends its name to the log each time it is invoked, then returns its node.
\<close>

record world =
  out :: string
  calls :: "string list"

definition Sink :: "world writer" where
  "Sink s p = (None, s\<lparr>out := out s @ p\<rparr>)"

definition BoundedSink :: "nat \<Rightarrow> world writer" where
  "BoundedSink n s p =
     (if length (out s) + length p \<le> n then (None, s\<lparr>out := out s @ p\<rparr>)
      else (Some ''no space'', s))"

definition logged :: "string \<Rightarrow> world Node \<Rightarrow> world \<Rightarrow> world Node \<times> world" where
  "logged label n s = (n, s\<lparr>calls := calls s @ [label]\<rparr>)"

section \<open>Properties\<close>

subsection \<open>Calls and sequencing\<close>

lemma Render_Some: "Render (Some r) = r"
  by (rule ext)+ simp

lemma Write_Builder: "Write Builder p buf = (OK, buf @ p)"
  by (simp add: Write_def Builder_def)

lemma Render_Group: "Render (Group cs) = range_children cs"
  by (rule ext)+ (simp add: Group_def group_Render_def)

lemma Render_Document:
  "Render (Document cs) wr = and_then (Write wr ''<!DOCTYPE html>'') (range_children cs wr)"
  by (rule ext) (simp add: Document_def document_Render_def)

lemma Render_Map: "Render (Map_node items f) = map_Render items f"
  by (simp add: Map_node_def Render_Some)

lemma Render_Tag: "Render (Tag_Node ord e) = Tag_Render ord e"
  by (simp add: Tag_Node_def Render_Some)

text \<open>The model passes the repository's test.\<close>

lemma TestRender: "Render test_doc Builder [] = (OK, test_expected)"
  by (simp add: test_doc_def test_expected_def El_def test_order_def in_key_order_def
      test_users_def greeting_def Document_def document_Render_def Tag_Node_def Map_node_def
      Tag_Render_def and_then_def Write_Builder Children_def Lang_def ClassIf_def Charset_def
      Attribute_def NewTag_def attribute_fragment_def IfElseFunc_def ifElseFunc_Render_def
      Text_def text_Render_def EscapeString_def Replace_def htmlEscaper_def)

subsection \<open>Escaping\<close>

lemma EscapeString_Cons: "EscapeString (c # s) = EscapeString [c] @ EscapeString s"
  by (simp add: EscapeString_def Replace_def)

lemma replace_all_Nil: "replace_all c r [] = []"
  by (simp add: replace_all_def)

lemma replace_all_Cons:
  "replace_all c r (x # xs) = (if x = c then r else [x]) @ replace_all c r xs"
  by (simp add: replace_all_def)

lemma replace_all_append:
  "replace_all c r (xs @ ys) = replace_all c r xs @ replace_all c r ys"
  by (simp add: replace_all_def)

lemma escape_in_order_append:
  "escape_in_order q (xs @ ys) = escape_in_order q xs @ escape_in_order q ys"
  by (simp add: escape_in_order_def replace_all_append)

text \<open>
  On one byte the five passes agree with the single pass: no entity contains a character
  that a later pass replaces.
\<close>

lemma escape_in_order_single: "escape_in_order ''&#34;'' [c] = EscapeString [c]"
  by (simp add: escape_in_order_def replace_all_Cons replace_all_Nil EscapeString_def
      Replace_def htmlEscaper_def)

lemma EscapeString_in_order: "EscapeString s = escape_in_order ''&#34;'' s"
proof (induction s)
  case Nil
  show ?case
    by (simp add: escape_in_order_def replace_all_Nil EscapeString_def Replace_def)
next
  case (Cons c s)
  have "escape_in_order ''&#34;'' (c # s) = escape_in_order ''&#34;'' ([c] @ s)"
    by simp
  also have "\<dots> = escape_in_order ''&#34;'' [c] @ escape_in_order ''&#34;'' s"
    by (rule escape_in_order_append)
  finally show ?case
    using Cons EscapeString_Cons[of c s] escape_in_order_single[of c] by simp
qed

text \<open>
  C1, as amended. For every string \<open>s\<close>, rendering \<open>Text s\<close> is one write of the escaped
  string, and rendering \<open>Raw s\<close> is one write of \<open>s\<close> itself; on a string builder the
  text is appended. The escaped string is \<open>s\<close> with each occurrence of exactly five
  characters replaced and every other byte kept: \<^verbatim>\<open>&\<close> by \<^verbatim>\<open>&amp;\<close>, \<^verbatim>\<open><\<close> by \<^verbatim>\<open>&lt;\<close>,
  \<^verbatim>\<open>>\<close> by \<^verbatim>\<open>&gt;\<close>, the double quote by \<^verbatim>\<open>&#34;\<close> (not \<^verbatim>\<open>&quot;\<close>) and the single quote by
  \<^verbatim>\<open>&#39;\<close>. It equals the five replacements done one after the other, ampersand first, so
  no ampersand of an entity is escaped again.
\<close>

theorem C1_Text_escapes_Raw_verbatim:
  "Render (Text s) wr = Write wr (EscapeString s)
   \<and> Render (Text s) Builder buf = (OK, buf @ EscapeString s)
   \<and> EscapeString s = escape_in_order ''&#34;'' s
   \<and> EscapeString s =
       concat (map (\<lambda>c. if c = CHR ''&'' then ''&amp;''
                         else if c = CHR ''<'' then ''&lt;''
                         else if c = CHR ''>'' then ''&gt;''
                         else if c = CHR 0x22 then ''&#34;''
                         else if c = CHR 0x27 then ''&#39;''
                         else [c]) s)
   \<and> Render (Raw s) wr = Write wr s
   \<and> Render (Raw s) Builder buf = (OK, buf @ s)"
proof -
  have 1: "Render (Text s) wr = Write wr (EscapeString s)"
    by (rule ext) (simp add: Text_def text_Render_def)
  have 2: "Render (Text s) Builder buf = (OK, buf @ EscapeString s)"
    by (simp add: Text_def text_Render_def Write_Builder)
  have 3: "EscapeString s = escape_in_order ''&#34;'' s"
    by (rule EscapeString_in_order)
  have 4: "EscapeString s =
       concat (map (\<lambda>c. if c = CHR ''&'' then ''&amp;''
                         else if c = CHR ''<'' then ''&lt;''
                         else if c = CHR ''>'' then ''&gt;''
                         else if c = CHR 0x22 then ''&#34;''
                         else if c = CHR 0x27 then ''&#39;''
                         else [c]) s)"
    by (induction s) (simp_all add: EscapeString_def Replace_def htmlEscaper_def)
  have 5: "Render (Raw s) wr = Write wr s"
    by (rule ext) (simp add: Raw_def raw_Render_def)
  have 6: "Render (Raw s) Builder buf = (OK, buf @ s)"
    by (simp add: Raw_def raw_Render_def Write_Builder)
  from 1 2 3 4 5 6 show ?thesis by blast
qed

text \<open>
  The two leaf scenarios of the specification: \<^verbatim>\<open>Text("<b>")\<close> renders \<^verbatim>\<open>&lt;b&gt;\<close> and
  \<^verbatim>\<open>Raw("<b>")\<close> renders \<^verbatim>\<open><b>\<close>.
\<close>

theorem C1_Text_escapes_Raw_verbatim_witness:
  "Render (Text ''<b>'') Builder [] = (OK, ''&lt;b&gt;'')
   \<and> Render (Raw ''<b>'') Builder [] = (OK, ''<b>'')"
  using C1_Text_escapes_Raw_verbatim[of "''<b>''" Builder "[]"]
  by (simp add: EscapeString_def Replace_def htmlEscaper_def Write_Builder)

text \<open>
  C1 as stated fails on the double quote: \<^verbatim>\<open>Text("\"")\<close> renders \<^verbatim>\<open>&#34;\<close>, which is not
  the text \<^verbatim>\<open>&quot;\<close> that the five replacements of the specification give.
\<close>

theorem C1_double_quote_counterexample:
  "Render (Text [CHR 0x22]) Builder [] = (OK, ''&#34;'')
   \<and> escape_in_order ''&quot;'' [CHR 0x22] = ''&quot;''
   \<and> Render (Text [CHR 0x22]) Builder [] \<noteq> (OK, escape_in_order ''&quot;'' [CHR 0x22])"
  by (simp add: Text_def text_Render_def Write_Builder EscapeString_def Replace_def
      htmlEscaper_def escape_in_order_def replace_all_def)

subsection \<open>Attribute setters\<close>

text \<open>
  C2 at the input where the code departs from it: \<^verbatim>\<open>AttributeIf(true, "class", "")\<close> on a
  fresh \<^verbatim>\<open>div\<close> stores the empty value under \<^verbatim>\<open>class\<close> and the tag renders as
  \<^verbatim>\<open><div class=""></div>\<close>, while \<^verbatim>\<open>Attribute("class", "")\<close> and the typed conditional
  setter \<^verbatim>\<open>ClassIf(true, "")\<close> on the same tag set nothing and the tag renders as
  \<^verbatim>\<open><div></div>\<close>. The order of the range used is an order of both maps.
\<close>

theorem C2_AttributeIf_stores_empty_value:
  "attributes (AttributeIf True ''class'' [] (NewTag ''div'' False [])) ''class'' = Some []
   \<and> attributes (Attribute ''class'' [] (NewTag ''div'' False [])) ''class'' = None
   \<and> attributes (ClassIf True [] (NewTag ''div'' False [])) ''class'' = None
   \<and> ranges (in_key_order [''class''])
         (attributes (AttributeIf True ''class'' [] (NewTag ''div'' False [])))
   \<and> ranges (in_key_order [''class''])
         (attributes (Attribute ''class'' [] (NewTag ''div'' False [])))
   \<and> Render (Tag_Node (in_key_order [''class''])
         (AttributeIf True ''class'' [] (NewTag ''div'' False []))) Builder []
       = (OK, ''<div class='' @ [CHR 0x22, CHR 0x22] @ ''></div>'')
   \<and> Render (Tag_Node (in_key_order [''class''])
         (Attribute ''class'' [] (NewTag ''div'' False []))) Builder []
       = (OK, ''<div></div>'')"
  by (simp add: AttributeIf_def Attribute_def ClassIf_def NewTag_def Render_Tag Tag_Render_def
      and_then_def Write_Builder attribute_fragment_def in_key_order_def ranges_def)

subsection \<open>Lazy conditionals\<close>

text \<open>
  C3 at the input where the code departs from it: with a false condition and an else closure
  that returns the nil node, \<^verbatim>\<open>ifElseFunc.Render\<close> calls \<^verbatim>\<open>Render\<close> on the nil node and
  panics, for every then closure, sink and state.
\<close>

theorem C3_else_thunk_nil_node_panics:
  "Render (IfElseFunc False t (Some (\<lambda>s. (None, s)))) wr s = (Panic, s)"
  by (simp add: IfElseFunc_def ifElseFunc_Render_def)

text \<open>
  C4, as amended. When the closure of the branch that the condition selects is not nil,
  rendering applies that closure once, to the state in which the render starts, and goes on
  from the state the closure leaves: with the node it returned (for the then branch, with
  nothing when that node is nil). The result does not depend on the other closure, which
  may be anything, nil included: it is never invoked. \<open>IfFunc\<close> with a false condition
  invokes nothing and leaves the state as it is.
\<close>

theorem C4_only_selected_thunk_invoked:
  "Render (IfElseFunc True (Some t) e) wr s =
     (case t s of (None, s') \<Rightarrow> (OK, s') | (Some r, s') \<Rightarrow> r wr s')
   \<and> Render (IfElseFunc False t' (Some e')) wr s =
     (case e' s of (n, s') \<Rightarrow> Render n wr s')
   \<and> Render (IfFunc True (Some t)) wr s =
     (case t s of (None, s') \<Rightarrow> (OK, s') | (Some r, s') \<Rightarrow> r wr s')
   \<and> Render (IfFunc False t') wr s = (OK, s)"
  by (simp add: IfElseFunc_def ifElseFunc_Render_def IfFunc_def ifFunc_Render_def
      split: prod.splits option.splits)

text \<open>
  With logged closures: each render logs one invocation, of the selected closure, and none
  of the other.
\<close>

theorem C4_only_selected_thunk_invoked_witness:
  "Render (IfElseFunc True (Some (logged ''then'' (Text ''t''))) (Some (logged ''else'' (Text ''e''))))
      Sink \<lparr>out = [], calls = []\<rparr>
     = (OK, \<lparr>out = ''t'', calls = [''then'']\<rparr>)
   \<and> Render (IfElseFunc False (Some (logged ''then'' (Text ''t''))) (Some (logged ''else'' (Text ''e''))))
      Sink \<lparr>out = [], calls = []\<rparr>
     = (OK, \<lparr>out = ''e'', calls = [''else'']\<rparr>)
   \<and> Render (IfFunc True (Some (logged ''then'' (Text ''t'')))) Sink \<lparr>out = [], calls = []\<rparr>
     = (OK, \<lparr>out = ''t'', calls = [''then'']\<rparr>)
   \<and> Render (IfFunc False (Some (logged ''then'' (Text ''t'')))) Sink \<lparr>out = [], calls = []\<rparr>
     = (OK, \<lparr>out = [], calls = []\<rparr>)"
  using C4_only_selected_thunk_invoked[of
      "logged ''then'' (Text ''t'')" "Some (logged ''else'' (Text ''e''))"
      Sink "\<lparr>out = [], calls = []\<rparr>"
      "Some (logged ''then'' (Text ''t''))" "logged ''else'' (Text ''e'')"]
  by (simp add: logged_def Text_def text_Render_def Sink_def Write_def
      EscapeString_def Replace_def htmlEscaper_def)

text \<open>
  C4 as stated fails when the then closure is nil: with a true condition,
  \<^verbatim>\<open>IfElseFunc(true, nil, elseThunk)\<close> invokes the else closure, once, and renders its node.
\<close>

theorem C4_nil_then_thunk_counterexample:
  "Render (IfElseFunc True None (Some (logged ''else'' (Text ''e''))))
      Sink \<lparr>out = [], calls = []\<rparr>
     = (OK, \<lparr>out = ''e'', calls = [''else'']\<rparr>)"
  by (simp add: IfElseFunc_def ifElseFunc_Render_def logged_def Text_def text_Render_def
      Sink_def Write_def EscapeString_def Replace_def htmlEscaper_def)

subsection \<open>Panics\<close>

text \<open>
  C5. \<^verbatim>\<open>Render\<close> panics, and returns no error, on these inputs, for every sink and state:
  \<^verbatim>\<open>If(true, nil)\<close>; \<^verbatim>\<open>IfElse\<close> whose selected branch is nil; \<^verbatim>\<open>IfElseFunc\<close> with a false
  condition and a nil else closure; \<^verbatim>\<open>IfElseFunc\<close> with a false condition and an else closure
  that returns the nil node; and \<^verbatim>\<open>Map\<close> over a non-empty slice whose transform returns the
  nil node for the first item.
\<close>

theorem C5_Render_panics:
  "Render (If_node True None) wr s = (Panic, s)
   \<and> Render (IfElse True None e) wr s = (Panic, s)
   \<and> Render (IfElse False t None) wr s = (Panic, s)
   \<and> Render (IfElseFunc False tf None) wr s = (Panic, s)
   \<and> Render (IfElseFunc False tf (Some (\<lambda>s. (None, h s)))) wr s = (Panic, h s)
   \<and> Render (Map_node (i # items) (Some (\<lambda>i s. (None, g i s)))) wr s = (Panic, g i s)"
  by (simp add: If_node_def if_Render_def IfElse_def ifElse_Render_def IfElseFunc_def
      ifElseFunc_Render_def Map_node_def)

subsection \<open>Loops\<close>

lemma range_children_filter:
  "range_children (filter (\<lambda>c. c \<noteq> None) cs) wr s = range_children cs wr s"
proof (induction cs arbitrary: s)
  case Nil
  show ?case by simp
next
  case (Cons c cs)
  show ?case
  proof (cases c)
    case None
    then show ?thesis using Cons by simp
  next
    case (Some r)
    then show ?thesis using Cons by (simp split: prod.splits outcome.splits)
  qed
qed

lemma range_children_append:
  "range_children (xs @ ys) wr s = and_then (range_children xs wr) (range_children ys wr) s"
proof (induction xs arbitrary: s)
  case Nil
  show ?case by (simp add: and_then_def)
next
  case (Cons c xs)
  show ?case
  proof (cases c)
    case None
    then show ?thesis using Cons by (simp add: and_then_def)
  next
    case (Some r)
    then show ?thesis
      using Cons by (simp add: and_then_def split: prod.splits outcome.splits)
  qed
qed

lemma range_children_nils: "range_children (replicate n None) wr s = (OK, s)"
  by (induction n) simp_all

lemma range_children_Raw_Builder:
  "range_children (map (\<lambda>c. case c of None \<Rightarrow> None | Some x \<Rightarrow> Raw x) cs) Builder buf =
     (OK, buf @ concat (map (\<lambda>c. case c of None \<Rightarrow> [] | Some x \<Rightarrow> x) cs))"
proof (induction cs arbitrary: buf)
  case Nil
  show ?case by simp
next
  case (Cons c cs)
  show ?case
  proof (cases c)
    case None
    then show ?thesis using Cons by simp
  next
    case (Some x)
    then show ?thesis using Cons by (simp add: Raw_def raw_Render_def Write_Builder)
  qed
qed

lemma map_Render_append:
  "map_Render (xs @ ys) f wr s = and_then (map_Render xs f wr) (map_Render ys f wr) s"
proof (induction xs arbitrary: s)
  case Nil
  show ?case by (simp add: and_then_def)
next
  case (Cons i xs)
  show ?case
  proof (cases f)
    case None
    then show ?thesis by (simp add: and_then_def)
  next
    case (Some g)
    then show ?thesis
      using Cons by (simp add: and_then_def split: prod.splits outcome.splits)
  qed
qed

lemma map_Render_Raw_Builder:
  "map_Render items (Some (\<lambda>i s. (Raw (h i), s))) Builder buf = (OK, buf @ concat (map h items))"
  by (induction items arbitrary: buf) (simp_all add: Raw_def raw_Render_def Write_Builder)

lemma range_attributes_Builder:
  "range_attributes kvs Builder buf = (OK, buf @ concat (map attribute_fragment kvs))"
  by (induction kvs arbitrary: buf) (simp_all add: Write_Builder)

subsection \<open>The order of a range over the attribute map\<close>

lemma filter_key_distinct:
  "distinct (map fst xs) \<Longrightarrow> map_of xs k = Some v \<Longrightarrow> filter (\<lambda>kv. fst kv = k) xs = [(k, v)]"
proof (induction xs)
  case Nil
  then show ?case by simp
next
  case (Cons x xs)
  show ?case
  proof (cases "fst x = k")
    case True
    with Cons.prems have v: "snd x = v" and notin: "k \<notin> fst ` set xs"
      by (cases x, auto)+
    from notin have "filter (\<lambda>kv. fst kv = k) xs = []"
      by (auto simp: filter_empty_conv)
    with True v show ?thesis by (cases x) simp
  next
    case False
    with Cons show ?thesis by (cases x) auto
  qed
qed

lemma ranges_filter_key:
  assumes "ranges ord m" and "m k = Some v"
  shows "filter (\<lambda>kv. fst kv = k) (ord m) = [(k, v)]"
  using assms filter_key_distinct[of "ord m" k v] by (simp add: ranges_def)

lemma ranges_keys:
  assumes "ranges ord m"
  shows "fst ` set (ord m) = dom m"
  using assms dom_map_of_conv_image_fst[of "ord m"] by (simp add: ranges_def)

lemma ranges_filter_absent:
  assumes "ranges ord m" and "m k = None"
  shows "filter (\<lambda>kv. fst kv = k) (ord m) = []"
proof -
  from assms(2) have "k \<notin> dom m" by (simp add: domIff)
  then have "k \<notin> fst ` set (ord m)" using ranges_keys[OF assms(1)] by simp
  then show ?thesis by (auto simp: filter_empty_conv)
qed

lemma ranges_singleton:
  assumes "ranges ord [k \<mapsto> v]"
  shows "ord [k \<mapsto> v] = [(k, v)]"
proof -
  have "fst ` set (ord [k \<mapsto> v]) = {k}"
    using ranges_keys[OF assms] by simp
  then have "\<forall>kv \<in> set (ord [k \<mapsto> v]). fst kv = k" by auto
  then have "filter (\<lambda>kv. fst kv = k) (ord [k \<mapsto> v]) = ord [k \<mapsto> v]"
    by (simp add: filter_id_conv)
  then show ?thesis using ranges_filter_key[OF assms, of k v] by simp
qed

lemma Attribute_keeps:
  "name (Attribute k v t) = name t"
  "isVoid (Attribute k v t) = isVoid t"
  "children (Attribute k v t) = children t"
  by (simp_all add: Attribute_def)

lemma NewTag_fields:
  "name (NewTag n v cs) = n"
  "isVoid (NewTag n v cs) = v"
  "children (NewTag n v cs) = cs"
  "attributes (NewTag n v cs) = Map.empty"
  by (simp_all add: NewTag_def)

lemma Attribute_twice:
  "b \<noteq> [] \<Longrightarrow> attributes (Attribute x b (Attribute x a t)) = (attributes t)(x \<mapsto> b)"
  by (simp add: Attribute_def)

subsection \<open>Void tags\<close>

text \<open>
  C6. For every void tag, whatever its children (nil entries, nodes whose render fails or
  panics), rendering gives the same result and the same state, for every sink and from every
  state, as rendering the tag with no children: one write of \<^verbatim>\<open><name\<close>, one write per
  attribute in the order of the range, one write of \<^verbatim>\<open>/>\<close>, and nothing else. On a string
  builder the output is exactly that text and no error is returned.
\<close>

theorem C6_void_tag_ignores_children:
  assumes "isVoid e"
  shows "Render (Tag_Node ord e) wr s = Render (Tag_Node ord (e\<lparr>children := []\<rparr>)) wr s
    \<and> Render (Tag_Node ord e) wr s =
        and_then (Write wr (''<'' @ name e))
          (and_then (range_attributes (ord (attributes e)) wr) (Write wr ''/>'')) s
    \<and> Render (Tag_Node ord e) Builder buf =
        (OK, buf @ ''<'' @ name e @ concat (map attribute_fragment (ord (attributes e))) @ ''/>'')"
proof -
  have 1: "Render (Tag_Node ord e) wr s = Render (Tag_Node ord (e\<lparr>children := []\<rparr>)) wr s"
    using assms by (simp add: Render_Tag Tag_Render_def)
  have 2: "Render (Tag_Node ord e) wr s =
        and_then (Write wr (''<'' @ name e))
          (and_then (range_attributes (ord (attributes e)) wr) (Write wr ''/>'')) s"
    using assms by (simp add: Render_Tag Tag_Render_def)
  have 3: "Render (Tag_Node ord e) Builder buf =
        (OK, buf @ ''<'' @ name e @ concat (map attribute_fragment (ord (attributes e))) @ ''/>'')"
    using assms
    by (simp add: Render_Tag Tag_Render_def and_then_def Write_Builder range_attributes_Builder)
  from 1 2 3 show ?thesis by blast
qed

text \<open>
  The specification's scenario \<^verbatim>\<open>NewTag("img", true, ...).Attribute("src", "a.png")\<close>, here
  with three children, one of which would panic if rendered: the output is
  \<^verbatim>\<open><img src="a.png"/>\<close>.
\<close>

theorem C6_void_tag_ignores_children_witness:
  "isVoid (Attribute ''src'' ''a.png''
      (NewTag ''img'' True [Text ''x'', None, Some (\<lambda>wr s. (Panic, s))]) :: string Tag)
   \<and> Render (Tag_Node (in_key_order [''src''])
        (Attribute ''src'' ''a.png''
          (NewTag ''img'' True [Text ''x'', None, Some (\<lambda>wr s. (Panic, s))]))) Builder []
     = (OK, ''<img src='' @ [CHR 0x22] @ ''a.png'' @ [CHR 0x22] @ ''/>'')
   \<and> Render (Tag_Node (in_key_order [''src''])
        (Attribute ''src'' ''a.png'' (NewTag ''img'' True []))) Builder []
     = (OK, ''<img src='' @ [CHR 0x22] @ ''a.png'' @ [CHR 0x22] @ ''/>'')"
proof -
  let ?t = "Attribute ''src'' ''a.png''
      (NewTag ''img'' True [Text ''x'', None, Some (\<lambda>wr s. (Panic, s))]) :: string Tag"
  have v: "isVoid ?t"
    by (simp add: Attribute_keeps NewTag_fields)
  have c: "?t\<lparr>children := []\<rparr> = Attribute ''src'' ''a.png'' (NewTag ''img'' True [])"
    by (simp add: Attribute_def NewTag_def)
  have o: "in_key_order [''src''] (attributes ?t) = [(''src'', ''a.png'')]"
    by (simp add: in_key_order_def Attribute_def NewTag_def)
  note th = C6_void_tag_ignores_children[OF v, of "in_key_order [''src'']" Builder "[]" "[]"]
  have r1: "Render (Tag_Node (in_key_order [''src'']) ?t) Builder []
     = (OK, ''<img src='' @ [CHR 0x22] @ ''a.png'' @ [CHR 0x22] @ ''/>'')"
    using conjunct2[OF conjunct2[OF th]]
    by (simp add: o Attribute_keeps NewTag_fields attribute_fragment_def)
  have r2: "Render (Tag_Node (in_key_order [''src''])
        (Attribute ''src'' ''a.png'' (NewTag ''img'' True []))) Builder []
     = (OK, ''<img src='' @ [CHR 0x22] @ ''a.png'' @ [CHR 0x22] @ ''/>'')"
    using conjunct1[OF th] r1 unfolding c by simp
  from v r1 r2 show ?thesis by blast
qed

subsection \<open>Map\<close>

text \<open>
  C7. Rendering \<open>Map\<close> over no items does nothing; over one item it invokes the transform on
  the item, once, and renders the node it returns; over \<open>xs @ ys\<close> it renders \<open>xs\<close> and then,
  only if that returned no error, \<open>ys\<close> from the state reached. So the items are handled one
  by one in sequence order. If the items \<open>xs\<close> render without error and the node of the next
  item \<open>i\<close> does not, the render ends there with that result and that state, whatever items
  \<open>ys\<close> follow: neither the transform nor a render is applied to them. On a string builder,
  with a transform that returns raw text, the output is the concatenation of the texts in
  the order of the items.
\<close>

theorem C7_Map_renders_items_in_order:
  "Render (Map_node [] f) wr s = (OK, s)
   \<and> Render (Map_node [i] (Some g)) wr s = (case g i s of (n, s1) \<Rightarrow> Render n wr s1)
   \<and> Render (Map_node (xs @ ys) f) wr s =
       and_then (Render (Map_node xs f) wr) (Render (Map_node ys f) wr) s
   \<and> (Render (Map_node xs (Some g)) wr s = (OK, s1) \<longrightarrow> g i s1 = (n, s2) \<longrightarrow>
        Render n wr s2 = (r, s3) \<longrightarrow> r \<noteq> OK \<longrightarrow>
        Render (Map_node (xs @ i # ys) (Some g)) wr s = (r, s3))
   \<and> Render (Map_node items (Some (\<lambda>i s. (Raw (h i), s)))) Builder buf =
       (OK, buf @ concat (map h items))"
proof -
  have 1: "Render (Map_node [] f) wr s = (OK, s)"
    by (simp add: Render_Map)
  have 2: "Render (Map_node [i] (Some g)) wr s = (case g i s of (n, s1) \<Rightarrow> Render n wr s1)"
    by (simp add: Render_Map split: prod.splits outcome.splits)
  have 3: "Render (Map_node (xs @ ys) f) wr s =
       and_then (Render (Map_node xs f) wr) (Render (Map_node ys f) wr) s"
    by (simp add: Render_Map map_Render_append)
  have 4: "Render (Map_node (xs @ i # ys) (Some g)) wr s = (r, s3)"
    if a: "Render (Map_node xs (Some g)) wr s = (OK, s1)" and b: "g i s1 = (n, s2)"
      and c: "Render n wr s2 = (r, s3)" and d: "r \<noteq> OK"
  proof -
    have "map_Render (xs @ i # ys) (Some g) wr s = map_Render (i # ys) (Some g) wr s1"
      using a by (simp add: map_Render_append and_then_def Render_Map)
    also have "\<dots> = (r, s3)"
      using b c d by (cases r) simp_all
    finally show ?thesis by (simp add: Render_Map)
  qed
  have 5: "Render (Map_node items (Some (\<lambda>i s. (Raw (h i), s)))) Builder buf =
       (OK, buf @ concat (map h items))"
    by (simp add: Render_Map map_Render_Raw_Builder)
  from 1 2 3 4 5 show ?thesis by blast
qed

text \<open>
  On a sink with room for three bytes, the items \<^verbatim>\<open>ab\<close>, \<^verbatim>\<open>cd\<close>, \<^verbatim>\<open>ef\<close> and a logged
  transform: the second item does not fit, its error is returned, and the log shows that the
  transform ran for the first two items only.
\<close>

theorem C7_Map_renders_items_in_order_witness:
  "Render (Map_node [''ab''] (Some (\<lambda>i. logged i (Raw i)))) (BoundedSink 3) \<lparr>out = [], calls = []\<rparr>
     = (OK, \<lparr>out = ''ab'', calls = [''ab'']\<rparr>)
   \<and> logged ''cd'' (Raw ''cd'') \<lparr>out = ''ab'', calls = [''ab'']\<rparr>
     = (Raw ''cd'', \<lparr>out = ''ab'', calls = [''ab'', ''cd'']\<rparr>)
   \<and> Render (Raw ''cd'') (BoundedSink 3) \<lparr>out = ''ab'', calls = [''ab'', ''cd'']\<rparr>
     = (Err ''no space'', \<lparr>out = ''ab'', calls = [''ab'', ''cd'']\<rparr>)
   \<and> Err ''no space'' \<noteq> OK
   \<and> Render (Map_node [''ab'', ''cd'', ''ef''] (Some (\<lambda>i. logged i (Raw i)))) (BoundedSink 3)
        \<lparr>out = [], calls = []\<rparr>
     = (Err ''no space'', \<lparr>out = ''ab'', calls = [''ab'', ''cd'']\<rparr>)"
proof -
  have h1: "Render (Map_node [''ab''] (Some (\<lambda>i. logged i (Raw i)))) (BoundedSink 3) \<lparr>out = [], calls = []\<rparr>
     = (OK, \<lparr>out = ''ab'', calls = [''ab'']\<rparr>)"
    by (simp add: Render_Map logged_def Raw_def raw_Render_def Write_def BoundedSink_def)
  have h2: "logged ''cd'' (Raw ''cd'') \<lparr>out = ''ab'', calls = [''ab'']\<rparr>
     = (Raw ''cd'', \<lparr>out = ''ab'', calls = [''ab'', ''cd'']\<rparr>)"
    by (simp add: logged_def)
  have h3: "Render (Raw ''cd'') (BoundedSink 3) \<lparr>out = ''ab'', calls = [''ab'', ''cd'']\<rparr>
     = (Err ''no space'', \<lparr>out = ''ab'', calls = [''ab'', ''cd'']\<rparr>)"
    by (simp add: Raw_def raw_Render_def Write_def BoundedSink_def)
  have h4: "Err ''no space'' \<noteq> OK" by simp
  show ?thesis
    using h1 h2 h3 h4
      C7_Map_renders_items_in_order[where wr = "BoundedSink 3" and s = "\<lparr>out = [], calls = []\<rparr>"
        and g = "\<lambda>i. logged i (Raw i)" and xs = "[''ab'']" and i = "''cd''" and ys = "[''ef'']"
        and ?s1.0 = "\<lparr>out = ''ab'', calls = [''ab'']\<rparr>" and n = "Raw ''cd''"
        and ?s2.0 = "\<lparr>out = ''ab'', calls = [''ab'', ''cd'']\<rparr>" and r = "Err ''no space''"
        and ?s3.0 = "\<lparr>out = ''ab'', calls = [''ab'', ''cd'']\<rparr>"
        and f = None and items = "[] :: string list" and h = "\<lambda>i. i" and buf = "[]"]
    by simp
qed

subsection \<open>Nil children\<close>

text \<open>
  C8. Rendering a \<open>Group\<close>, a \<open>Document\<close> or a tag gives the same result and the same state,
  for every sink and from every state, as rendering it with the nil entries removed from its
  children; children that are all nil render nothing and return no error.
\<close>

theorem C8_nil_children_skipped:
  "Render (Group cs) wr s = Render (Group (filter (\<lambda>c. c \<noteq> None) cs)) wr s
   \<and> Render (Document cs) wr s = Render (Document (filter (\<lambda>c. c \<noteq> None) cs)) wr s
   \<and> Render (Tag_Node ord e) wr s =
       Render (Tag_Node ord (e\<lparr>children := filter (\<lambda>c. c \<noteq> None) (children e)\<rparr>)) wr s
   \<and> Render (Group (replicate n None)) wr s = (OK, s)"
proof -
  have f: "range_children (filter (\<lambda>c. c \<noteq> None) cs) wr = range_children cs wr" for cs :: "'a Node list"
    by (rule ext) (rule range_children_filter)
  have 1: "Render (Group cs) wr s = Render (Group (filter (\<lambda>c. c \<noteq> None) cs)) wr s"
    by (simp add: Render_Group f del: not_None_eq)
  have 2: "Render (Document cs) wr s = Render (Document (filter (\<lambda>c. c \<noteq> None) cs)) wr s"
    by (simp add: Render_Document f del: not_None_eq)
  have 3: "Render (Tag_Node ord e) wr s =
       Render (Tag_Node ord (e\<lparr>children := filter (\<lambda>c. c \<noteq> None) (children e)\<rparr>)) wr s"
    by (simp add: Render_Tag Tag_Render_def f del: not_None_eq)
  have 4: "Render (Group (replicate n None)) wr s = (OK, s)"
    by (simp add: Render_Group range_children_nils)
  from 1 2 3 4 show ?thesis by blast
qed

text \<open>
  The specification's scenario \<^verbatim>\<open>Group(Text("a"), nil, Text("b"))\<close> renders \<^verbatim>\<open>ab\<close>.
\<close>

theorem C8_nil_children_skipped_witness:
  "Render (Group [Text ''a'', None, Text ''b'']) Builder [] = (OK, ''ab'')
   \<and> Render (Group [Text ''a'', Text ''b'']) Builder [] = (OK, ''ab'')"
  using C8_nil_children_skipped[of "[Text ''a'', None, Text ''b'']" Builder "[]"]
  by (simp add: Render_Group Text_def text_Render_def Write_Builder EscapeString_def Replace_def htmlEscaper_def)

subsection \<open>Attributes\<close>

text \<open>
  C9. \<open>Attribute k ""\<close> returns the tag unchanged, so the tag renders as it did before the
  call, and on a tag where \<open>k\<close> is not set the range over its attributes yields no entry for
  \<open>k\<close>: no fragment for \<open>k\<close> is written. For a
  non-empty \<open>b\<close>, after \<open>Attribute x a\<close> and then \<open>Attribute x b\<close> the map is the map of the tag
  with \<open>x\<close> set to \<open>b\<close>; every range over it yields exactly one entry for \<open>x\<close>, the pair
  \<open>(x, b)\<close>; and a fresh tag without children renders on a string builder as the opening
  text, the one fragment \<^verbatim>\<open> x="b"\<close>, and the closing text.
\<close>

theorem C9_Attribute_empty_and_last_write:
  "Attribute k [] t = t
   \<and> Render (Tag_Node ord (Attribute k [] t)) = Render (Tag_Node ord t)
   \<and> (attributes t k = None \<longrightarrow> ranges ord (attributes (Attribute k [] t)) \<longrightarrow>
        filter (\<lambda>kv. fst kv = k) (ord (attributes (Attribute k [] t))) = [])
   \<and> (b \<noteq> [] \<longrightarrow> attributes (Attribute x b (Attribute x a t)) = (attributes t)(x \<mapsto> b))
   \<and> (b \<noteq> [] \<longrightarrow> ranges ord (attributes (Attribute x b (Attribute x a t))) \<longrightarrow>
        filter (\<lambda>kv. fst kv = x) (ord (attributes (Attribute x b (Attribute x a t)))) = [(x, b)])
   \<and> (b \<noteq> [] \<longrightarrow> ranges ord [x \<mapsto> b] \<longrightarrow>
        Render (Tag_Node ord (Attribute x b (Attribute x a (NewTag n v [])))) Builder buf =
          (OK, buf @ ''<'' @ n @ '' '' @ x @ ''='' @ [CHR 0x22] @ b @ [CHR 0x22]
                 @ (if v then ''/>'' else ''>'' @ ''</'' @ n @ ''>'')))"
proof -
  have 1: "Attribute k [] t = t"
    by (simp add: Attribute_def)
  have 0: "Render (Tag_Node ord (Attribute k [] t)) = Render (Tag_Node ord t)"
    by (simp add: 1)
  have 2: "filter (\<lambda>kv. fst kv = k) (ord (attributes (Attribute k [] t))) = []"
    if "attributes t k = None" and "ranges ord (attributes (Attribute k [] t))"
    using that by (simp add: 1 ranges_filter_absent)
  have 3: "attributes (Attribute x b (Attribute x a t)) = (attributes t)(x \<mapsto> b)" if "b \<noteq> []"
    using that by (rule Attribute_twice)
  have 4: "filter (\<lambda>kv. fst kv = x) (ord (attributes (Attribute x b (Attribute x a t)))) = [(x, b)]"
    if "b \<noteq> []" and "ranges ord (attributes (Attribute x b (Attribute x a t)))"
    using that ranges_filter_key[of ord "attributes (Attribute x b (Attribute x a t))" x b]
    by (simp add: Attribute_twice)
  have 5: "Render (Tag_Node ord (Attribute x b (Attribute x a (NewTag n v [])))) Builder buf =
          (OK, buf @ ''<'' @ n @ '' '' @ x @ ''='' @ [CHR 0x22] @ b @ [CHR 0x22]
                 @ (if v then ''/>'' else ''>'' @ ''</'' @ n @ ''>''))"
    if nb: "b \<noteq> []" and r: "ranges ord [x \<mapsto> b]"
  proof -
    let ?t = "Attribute x b (Attribute x a (NewTag n v [])) :: string Tag"
    have a: "attributes ?t = [x \<mapsto> b]"
      using nb by (simp add: Attribute_twice NewTag_def)
    have o: "ord (attributes ?t) = [(x, b)]"
      using ranges_singleton[OF r] a by simp
    show ?thesis
      by (simp add: Render_Tag Tag_Render_def o Attribute_keeps NewTag_fields and_then_def
          Write_Builder attribute_fragment_def)
  qed
  from 0 1 2 3 4 5 show ?thesis by blast
qed

text \<open>
  On a fresh \<^verbatim>\<open>div\<close>: \<^verbatim>\<open>Attribute("x", "a").Attribute("x", "b")\<close> renders
  \<^verbatim>\<open><div x="b"></div>\<close>.
\<close>

theorem C9_Attribute_empty_and_last_write_witness:
  "attributes (NewTag ''div'' False [] :: string Tag) ''x'' = None
   \<and> ranges (in_key_order [''x'']) (attributes (Attribute ''x'' [] (NewTag ''div'' False [] :: string Tag)))
   \<and> ''b'' \<noteq> []
   \<and> ranges (in_key_order [''x''])
        (attributes (Attribute ''x'' ''b'' (Attribute ''x'' ''a'' (NewTag ''div'' False [] :: string Tag))))
   \<and> ranges (in_key_order [''x'']) [''x'' \<mapsto> ''b'']
   \<and> Attribute ''x'' [] (NewTag ''div'' False [] :: string Tag) = NewTag ''div'' False []
   \<and> in_key_order [''x''] (attributes (Attribute ''x'' [] (NewTag ''div'' False [] :: string Tag))) = []
   \<and> in_key_order [''x'']
        (attributes (Attribute ''x'' ''b'' (Attribute ''x'' ''a'' (NewTag ''div'' False [] :: string Tag))))
       = [(''x'', ''b'')]
   \<and> Render (Tag_Node (in_key_order [''x''])
         (Attribute ''x'' ''b'' (Attribute ''x'' ''a'' (NewTag ''div'' False [])))) Builder []
       = (OK, ''<div x='' @ [CHR 0x22] @ ''b'' @ [CHR 0x22] @ ''></div>'')"
proof -
  have h1: "attributes (NewTag ''div'' False [] :: string Tag) ''x'' = None"
    by (simp add: NewTag_def)
  have h2: "ranges (in_key_order [''x'']) (attributes (Attribute ''x'' [] (NewTag ''div'' False [] :: string Tag)))"
    by (simp add: ranges_def in_key_order_def Attribute_def NewTag_def)
  have h3: "''b'' \<noteq> []" by simp
  have h4: "ranges (in_key_order [''x''])
        (attributes (Attribute ''x'' ''b'' (Attribute ''x'' ''a'' (NewTag ''div'' False [] :: string Tag))))"
    by (simp add: ranges_def in_key_order_def Attribute_def NewTag_def)
  have h5: "ranges (in_key_order [''x'']) [''x'' \<mapsto> ''b'']"
    by (simp add: ranges_def in_key_order_def)
  show ?thesis
    using h1 h2 h3 h4 h5
      C9_Attribute_empty_and_last_write[of "''x''" "NewTag ''div'' False [] :: string Tag" "in_key_order [''x'']" "''b''" "''x''" "''a''" "''div''" False "[]"]
    by (simp add: in_key_order_def Attribute_def NewTag_def)
qed

subsection \<open>Document\<close>

text \<open>
  C10. Rendering a \<open>Document\<close> is one write of \<^verbatim>\<open><!DOCTYPE html>\<close> followed, if the write
  returned no error, by the rendering of the children as a \<open>Group\<close> renders them: in order
  (the children \<open>xs @ ys\<close> are \<open>xs\<close> and then \<open>ys\<close>), a nil child skipped, a non-nil child
  rendered. If the write of the preamble fails, its error is returned and nothing else is
  done. A document without children is the write of the preamble alone, and on a string
  builder a document of raw texts with nil entries among them is the preamble, once, followed
  by the texts.
\<close>

theorem C10_Document_preamble:
  "Render (Document cs) wr = and_then (Write wr ''<!DOCTYPE html>'') (Render (Group cs) wr)
   \<and> Render (Document []) wr = Write wr ''<!DOCTYPE html>''
   \<and> Render (Document []) Builder buf = (OK, buf @ ''<!DOCTYPE html>'')
   \<and> (wr s ''<!DOCTYPE html>'' = (Some err, s') \<longrightarrow> Render (Document cs) wr s = (Err err, s'))
   \<and> Render (Group (xs @ ys)) wr = and_then (Render (Group xs) wr) (Render (Group ys) wr)
   \<and> Render (Group [None]) wr s = (OK, s)
   \<and> Render (Group [Some r]) wr s = r wr s
   \<and> Render (Document (map (\<lambda>c. case c of None \<Rightarrow> None | Some x \<Rightarrow> Raw x) ts)) Builder buf =
       (OK, buf @ ''<!DOCTYPE html>'' @ concat (map (\<lambda>c. case c of None \<Rightarrow> [] | Some x \<Rightarrow> x) ts))"
proof -
  have 1: "Render (Document cs) wr = and_then (Write wr ''<!DOCTYPE html>'') (Render (Group cs) wr)"
    by (simp add: Render_Document Render_Group)
  have 2: "Render (Document []) wr = Write wr ''<!DOCTYPE html>''"
    by (rule ext) (simp add: Render_Document and_then_def split: prod.splits outcome.splits)
  have 3: "Render (Document []) Builder buf = (OK, buf @ ''<!DOCTYPE html>'')"
    by (simp add: Render_Document and_then_def Write_Builder)
  have 4: "Render (Document cs) wr s = (Err err, s')" if "wr s ''<!DOCTYPE html>'' = (Some err, s')"
    using that by (simp add: Render_Document and_then_def Write_def)
  have 5: "Render (Group (xs @ ys)) wr = and_then (Render (Group xs) wr) (Render (Group ys) wr)"
    by (rule ext) (simp add: Render_Group range_children_append)
  have 6: "Render (Group [None]) wr s = (OK, s)"
    by (simp add: Render_Group)
  have 7: "Render (Group [Some r]) wr s = r wr s"
    by (simp add: Render_Group split: prod.splits outcome.splits)
  have 8: "Render (Document (map (\<lambda>c. case c of None \<Rightarrow> None | Some x \<Rightarrow> Raw x) ts)) Builder buf =
       (OK, buf @ ''<!DOCTYPE html>'' @ concat (map (\<lambda>c. case c of None \<Rightarrow> [] | Some x \<Rightarrow> x) ts))"
    by (simp add: Render_Document and_then_def Write_Builder range_children_Raw_Builder)
  from 1 2 3 4 5 6 7 8 show ?thesis by blast
qed

text \<open>
  On a sink with room for three bytes the preamble does not fit and the error is returned
  with nothing written; on a string builder \<^verbatim>\<open>Document()\<close> renders \<^verbatim>\<open><!DOCTYPE html>\<close>.
\<close>

theorem C10_Document_preamble_witness:
  "BoundedSink 3 \<lparr>out = [], calls = []\<rparr> ''<!DOCTYPE html>''
     = (Some ''no space'', \<lparr>out = [], calls = []\<rparr>)
   \<and> Render (Document [Raw ''x'']) (BoundedSink 3) \<lparr>out = [], calls = []\<rparr>
     = (Err ''no space'', \<lparr>out = [], calls = []\<rparr>)
   \<and> Render (Document []) Builder [] = (OK, ''<!DOCTYPE html>'')
   \<and> Render (Document [Raw ''<p>'', None, Raw ''</p>'']) Builder []
     = (OK, ''<!DOCTYPE html><p></p>'')"
proof -
  have h: "BoundedSink 3 \<lparr>out = [], calls = []\<rparr> ''<!DOCTYPE html>''
     = (Some ''no space'', \<lparr>out = [], calls = []\<rparr>)"
    by (simp add: BoundedSink_def)
  note th = C10_Document_preamble[where wr = "BoundedSink 3" and s = "\<lparr>out = [], calls = []\<rparr>"
        and err = "''no space''" and s' = "\<lparr>out = [], calls = []\<rparr>"
        and cs = "[Raw ''x'']" and xs = "[]" and ys = "[]" and r = "\<lambda>wr s. (OK, s)"
        and buf = "[]" and ts = "[Some ''<p>'', None, Some ''</p>'']"]
  from th h have r1: "Render (Document [Raw ''x'']) (BoundedSink 3) \<lparr>out = [], calls = []\<rparr>
     = (Err ''no space'', \<lparr>out = [], calls = []\<rparr>)"
    by blast
  from th have r2: "Render (Document []) Builder [] = (OK, [] @ ''<!DOCTYPE html>'')"
    by blast
  from th have "Render (Document (map (\<lambda>c. case c of None \<Rightarrow> None | Some x \<Rightarrow> Raw x)
        [Some ''<p>'', None, Some ''</p>''])) Builder []
     = (OK, [] @ ''<!DOCTYPE html>'' @ concat (map (\<lambda>c. case c of None \<Rightarrow> [] | Some x \<Rightarrow> x)
        [Some ''<p>'', None, Some ''</p>'']))"
    by blast
  then have r3: "Render (Document [Raw ''<p>'', None, Raw ''</p>'']) Builder []
     = (OK, ''<!DOCTYPE html><p></p>'')"
    by simp
  from h r1 r2 r3 show ?thesis by simp
qed

end
